theory Spec2Isabelle
  imports Main "HOL-Library.Word" "HOL-Library.AList"
begin

section \<open>Values of the host language\<close>

text \<open>
  A \<open>Buffer\<close> is a sequence of bytes.  A client is the wire driver's connection object;
  the pool manager assigns it \<open>name\<close> and \<open>lastUsedTime\<close> and reads the length of its
  \<open>queue\<close>.  Array elements, set members and event payloads are untyped at run time
  (the driver is imported under \<open>@ts-ignore\<close>), hence a type of dynamic values.
\<close>

type_synonym bytes = "8 word list"

record client =
  name :: string
  lastUsedTime :: int
  queue :: nat

datatype jsval =
    JUndefined
  | JNull
  | JBool bool
  | JNum int
  | JStr string
  | JBuf bytes
  | JClient client
  | JArray "jsval list"
  | JObject "(string \<times> jsval) list"

datatype error =
    PoolExhausted   \<comment> \<open>\<open>Error('All clients are buzy, come back later')\<close>\<close>
  | TypeError       \<comment> \<open>a property read or a method call on a value that has none\<close>
  | UnhandledError  \<comment> \<open>\<open>emit('error', ...)\<close> on an emitter without an \<open>error\<close> listener\<close>

text \<open>How a promise settles.\<close>

datatype outcome = Resolved jsval | Rejected jsval

text \<open>An element of a command: \<open>string | Buffer\<close>.\<close>

datatype arg = Text string | Binary bytes

text \<open>The raw calls issued on a client (named by the client's \<open>name\<close>).  The callback of
  \<open>rawCall\<close> is always \<open>onPubsubMessage\<close> bound to the same client.\<close>

datatype rawcall = RawCall string "string list" | RawCallAsync string "string list"

section \<open>The state of a \<open>ManagedRedisCluster\<close>\<close>

text \<open>
  \<open>pool\<close> is a \<open>Map\<close>: keys are unique and iteration follows insertion order, so it is an
  association list (\<open>AList.update\<close> replaces in place or appends, \<open>AList.delete\<close> removes).
  \<open>poolUsed\<close> is declared \<open>Set<string>\<close> but receives whatever \<open>acquire\<close> adds.
  \<open>ended\<close>, \<open>sent\<close> and \<open>emitted\<close> record the calls made on collaborators: \<open>client.end()\<close>,
  \<open>rawCall\<close>/\<open>rawCallAsync\<close>, and \<open>this.emit\<close>.
\<close>

record state =
  minPool :: nat
  maxPool :: nat
  poolTTL :: int
  pid :: nat
  pool :: "(string \<times> client) list"
  poolUsed :: "jsval set"
  poolUsedPS :: string
  PSTopics :: "string list"
  ended :: "string list"
  sent :: "rawcall list"
  emitted :: "(string \<times> jsval list) list"

text \<open>What one call of \<open>create\<close> reads from its environment: \<open>Date.now()\<close> for the
  identifier, \<open>Math.floor(Math.random() * 4096)\<close>, and \<open>Date.now()\<close> again for
  \<open>lastUsedTime\<close>.\<close>

record tick =
  now_id :: int
  rnd :: nat
  now_used :: int

section \<open>Pool manager\<close>

subsection \<open>create\<close>

text \<open>Decimal rendering of numbers inside the template literal.\<close>

fun decimal_nat :: "nat \<Rightarrow> string" where
  "decimal_nat n =
     (if n < 10 then [char_of (48 + n)]
      else decimal_nat (n div 10) @ [char_of (48 + n mod 10)])"

declare decimal_nat.simps [simp del]

definition decimal :: "int \<Rightarrow> string" where
  "decimal i = (if i < 0 then CHR ''-'' # decimal_nat (nat (- i)) else decimal_nat (nat i))"

definition uniqueID :: "nat \<Rightarrow> tick \<Rightarrow> string" where
  "uniqueID p t = decimal_nat p @ ''-'' @ decimal (now_id t) @ ''-'' @ decimal_nat (rnd t)"

text \<open>\<open>create\<close>: a fresh client (its queue is empty) is stored under its identifier.  The
  listeners it wires only re-emit events, except \<open>onClientError\<close> below.\<close>

definition create :: "tick \<Rightarrow> state \<Rightarrow> string \<times> state" where
  "create t s =
     (let uid = uniqueID (pid s) t;
          c = \<lparr>name = uid, lastUsedTime = now_used t, queue = 0\<rparr>
      in (uid, s\<lparr>pool := AList.update uid c (pool s)\<rparr>))"

text \<open>\<open>for (let i = 0; i < n; i++) this.create(this.poolOptions)\<close>; the \<open>i\<close>-th iteration
  reads the environment \<open>tk i\<close>.\<close>

definition create_n :: "nat \<Rightarrow> (nat \<Rightarrow> tick) \<Rightarrow> state \<Rightarrow> state" where
  "create_n n tk s = fold (\<lambda>i s'. snd (create (tk i) s')) [0..<n] s"

subsection \<open>constructor\<close>

definition construct :: "nat \<Rightarrow> nat \<Rightarrow> int \<Rightarrow> nat \<Rightarrow> (nat \<Rightarrow> tick) \<Rightarrow> state" where
  "construct minP maxP ttl p tk =
     create_n minP tk
       \<lparr>minPool = minP, maxPool = maxP, poolTTL = ttl, pid = p,
        pool = [], poolUsed = {}, poolUsedPS = '''', PSTopics = [],
        ended = [], sent = [], emitted = []\<rparr>"

subsection \<open>acquire and release\<close>

text \<open>The property \<open>id\<close> of a client: \<open>create\<close> assigns \<open>name\<close> and \<open>lastUsedTime\<close> and
  nothing in the repository assigns \<open>id\<close>, so reading it gives \<open>undefined\<close>.\<close>

definition client_id :: "client \<Rightarrow> jsval" where
  "client_id c = JUndefined"

text \<open>The predicate of the \<open>filter\<close> in \<open>acquire\<close>.  Its argument \<open>x\<close> is the client object:
  \<open>!this.poolUsed.has(x) && x !== this.poolUsedPS\<close>.\<close>

definition candidate :: "state \<Rightarrow> client \<Rightarrow> bool" where
  "candidate s x = (JClient x \<notin> poolUsed s \<and> JClient x \<noteq> JStr (poolUsedPS s))"

text \<open>\<open>[...this.pool.values()].filter(...).sort(...)\<close>, ascending queue length, stable.\<close>

definition clientList :: "state \<Rightarrow> client list" where
  "clientList s = sort_key queue (filter (candidate s) (map snd (pool s)))"

text \<open>\<open>acquire(id?)\<close>.  \<open>if (id)\<close> is false for a missing and for an empty identifier.
  With an identifier the result is \<open>this.pool.get(id)\<close>, which may be \<open>undefined\<close>
  (\<open>None\<close>).\<close>

definition acquire :: "string option \<Rightarrow> tick \<Rightarrow> state \<Rightarrow> error + (client option \<times> state)" where
  "acquire idopt t s =
     (case (case idopt of None \<Rightarrow> None | Some i \<Rightarrow> if i = [] then None else Some i) of
        Some i \<Rightarrow> Inr (map_of (pool s) i, s\<lparr>poolUsed := insert (JStr i) (poolUsed s)\<rparr>)
      | None \<Rightarrow>
          (case clientList s of
             [] \<Rightarrow>
               if length (pool s) < maxPool s then
                 (let (i, s1) = create t s
                  in Inr (map_of (pool s1) i, s1\<lparr>poolUsed := insert (JStr i) (poolUsed s1)\<rparr>))
               else Inl PoolExhausted
           | leastBusyClient # rest \<Rightarrow>
               Inr (Some leastBusyClient,
                    s\<lparr>poolUsed := insert (client_id leastBusyClient) (poolUsed s)\<rparr>)))"

definition release :: "client \<Rightarrow> state \<Rightarrow> state" where
  "release c s = s\<lparr>poolUsed := poolUsed s - {JStr (name c)}\<rparr>"

text \<open>\<open>client.lastUsedTime = Date.now()\<close> writes to the object the pool holds under the
  client's name.\<close>

definition touch :: "string \<Rightarrow> int \<Rightarrow> (string \<times> client) list \<Rightarrow> (string \<times> client) list" where
  "touch k now m = map (\<lambda>(k', c). if k' = k then (k', c\<lparr>lastUsedTime := now\<rparr>) else (k', c)) m"

subsection \<open>run\<close>

text \<open>The \<open>map\<close> over the command: a buffer becomes the sentinel followed by its
  ascii85 text (\<open>a85.stringify\<close>, a parameter), a string stays.\<close>

definition sentinel :: char where
  "sentinel = char_of (2 :: nat)"

definition encode :: "(bytes \<Rightarrow> string) \<Rightarrow> arg \<Rightarrow> string" where
  "encode stringify x = (case x of Binary b \<Rightarrow> sentinel # stringify b | Text t \<Rightarrow> t)"

text \<open>\<open>run\<close> up to the raw call (the result is the client, stamped), and the continuation
  once the raw call settles: \<open>release\<close> sits in \<open>.then\<close> only.\<close>

definition run_start ::
  "(bytes \<Rightarrow> string) \<Rightarrow> arg list \<Rightarrow> int \<Rightarrow> tick \<Rightarrow> state \<Rightarrow> error + (client \<times> state)" where
  "run_start stringify command now t s =
     (case acquire None t s of
        Inl e \<Rightarrow> Inl e
      | Inr (None, s1) \<Rightarrow> Inl TypeError
      | Inr (Some c, s1) \<Rightarrow>
          Inr (c\<lparr>lastUsedTime := now\<rparr>,
               s1\<lparr>pool := touch (name c) now (pool s1),
                  sent := sent s1 @ [RawCallAsync (name c) (map (encode stringify) command)]\<rparr>))"

definition run_settle :: "client \<Rightarrow> outcome \<Rightarrow> state \<Rightarrow> outcome \<times> state" where
  "run_settle c reply s =
     (case reply of
        Resolved x \<Rightarrow> (Resolved x, release c s)
      | Rejected e \<Rightarrow> (Rejected e, s))"

definition run ::
  "(bytes \<Rightarrow> string) \<Rightarrow> arg list \<Rightarrow> int \<Rightarrow> tick \<Rightarrow> outcome \<Rightarrow> state \<Rightarrow> error + (outcome \<times> state)" where
  "run stringify command now t reply s =
     (case run_start stringify command now t s of
        Inl e \<Rightarrow> Inl e
      | Inr (c, s1) \<Rightarrow> Inr (run_settle c reply s1))"

subsection \<open>subscribe and unsubscribe\<close>

definition subscribe :: "string list \<Rightarrow> int \<Rightarrow> tick \<Rightarrow> state \<Rightarrow> error + (outcome \<times> state)" where
  "subscribe topic now t s =
     (case acquire None t s of
        Inl e \<Rightarrow> Inl e
      | Inr (None, s1) \<Rightarrow> Inl TypeError
      | Inr (Some c, s1) \<Rightarrow>
          Inr (Resolved (JBool True),
               s1\<lparr>pool := touch (name c) now (pool s1),
                   poolUsedPS := name c,
                   PSTopics := PSTopics s1 @ topic,
                   sent := sent s1 @ [RawCall (name c) (''PSUBSCRIBE'' # topic)]\<rparr>))"

text \<open>\<open>unsubscribe\<close> up to the raw call; the flag says which of the two promise chains
  was built (\<open>this.PSTopics.length < 1\<close>).\<close>

definition unsubscribe_start ::
  "string list \<Rightarrow> int \<Rightarrow> tick \<Rightarrow> state \<Rightarrow> error + (bool \<times> state)" where
  "unsubscribe_start topic now t s =
     (case acquire None t s of
        Inl e \<Rightarrow> Inl e
      | Inr (None, s1) \<Rightarrow> Inl TypeError
      | Inr (Some c, s1) \<Rightarrow>
          (let topics = filter (\<lambda>x. x \<notin> set topic) (PSTopics s1)
           in Inr (length topics < 1,
                   s1\<lparr>pool := touch (name c) now (pool s1),
                       PSTopics := topics,
                       sent := sent s1 @ [RawCallAsync (name c) (''PUNSUBSCRIBE'' # topic)]\<rparr>)))"

definition unsubscribe_settle :: "bool \<Rightarrow> outcome \<Rightarrow> state \<Rightarrow> outcome \<times> state" where
  "unsubscribe_settle off reply s =
     (case reply of
        Resolved x \<Rightarrow> (Resolved (JBool True), if off then s\<lparr>poolUsedPS := ''''\<rparr> else s)
      | Rejected e \<Rightarrow> (Rejected e, s))"

definition unsubscribe ::
  "string list \<Rightarrow> int \<Rightarrow> tick \<Rightarrow> outcome \<Rightarrow> state \<Rightarrow> error + (outcome \<times> state)" where
  "unsubscribe topic now t reply s =
     (case unsubscribe_start topic now t s of
        Inl e \<Rightarrow> Inl e
      | Inr (off, s1) \<Rightarrow> Inr (unsubscribe_settle off reply s1))"

subsection \<open>evict\<close>

text \<open>The body of the loop over \<open>this.pool.values()\<close>: the size is read anew for every
  client, and deleting the current entry does not disturb the iteration.\<close>

definition evict_step :: "int \<Rightarrow> client \<Rightarrow> state \<Rightarrow> state" where
  "evict_step currentTime c s =
     (if currentTime - lastUsedTime c \<ge> poolTTL s \<and> length (pool s) > minPool s
         \<and> name c \<noteq> poolUsedPS s
      then s\<lparr>ended := ended s @ [name c], pool := AList.delete (name c) (pool s)\<rparr>
      else s)"

definition evict :: "int \<Rightarrow> state \<Rightarrow> state" where
  "evict currentTime s = fold (evict_step currentTime) (map snd (pool s)) s"

subsection \<open>Event handlers\<close>

text \<open>\<open>onClientError\<close>.  \<open>listening\<close> says whether the manager has an \<open>error\<close> listener:
  without one \<open>emit('error', ...)\<close> throws and the handler stops there.\<close>

definition onClientError ::
  "bool \<Rightarrow> client \<Rightarrow> jsval \<Rightarrow> (nat \<Rightarrow> tick) \<Rightarrow> state \<Rightarrow> error + state" where
  "onClientError listening c err tk s =
     (if \<not> listening then Inl UnhandledError
      else
        (let s1 = s\<lparr>emitted := emitted s @ [(''error'', [JStr (name c), err])]\<rparr>;
             s2 = s1\<lparr>pool := AList.delete (name c) (pool s1)\<rparr>
         in if length (pool s2) < minPool s2 then Inr (create_n (minPool s2) tk s2)
            else Inr s2))"

text \<open>\<open>onPubsubMessage\<close>: \<open>message[2]\<close>, then \<open>message.pop()\<close>, then \<open>startsWith\<close>.
  Reading index 2 throws on \<open>null\<close> and \<open>undefined\<close>; \<open>pop\<close> is a method of arrays only,
  \<open>startsWith\<close> of strings only.  \<open>a85.parse\<close> is a parameter.\<close>

definition onPubsubMessage ::
  "(string \<Rightarrow> bytes) \<Rightarrow> client \<Rightarrow> jsval \<Rightarrow> state \<Rightarrow> error + state" where
  "onPubsubMessage parse c message s =
     (case message of
        JArray xs \<Rightarrow>
          (let topic = (if 2 < length xs then xs ! 2 else JUndefined);
               rawData = (if xs = [] then JUndefined else last xs)
           in case rawData of
                JStr r \<Rightarrow>
                  (let data = (if r \<noteq> [] \<and> hd r = sentinel then JBuf (parse (tl r)) else JStr r)
                   in Inr (s\<lparr>emitted := emitted s @
                               [(''message'',
                                 [JObject [(''client'', JClient c), (''topic'', topic),
                                           (''data'', data)]])]\<rparr>))
              | _ \<Rightarrow> Inl TypeError)
      | _ \<Rightarrow> Inl TypeError)"

text \<open>The callback \<open>subscribe\<close> hands to \<open>rawCall\<close> is
  \<open>this.onPubsubMessage.bind(this, client)\<close>.  The driver calls a callback with the error
  first (\<open>null\<close> when there is none) and the reply second: the bound handler takes the
  error for its \<open>message\<close>, and nothing takes the reply.\<close>

definition pubsub_callback ::
  "(string \<Rightarrow> bytes) \<Rightarrow> client \<Rightarrow> jsval \<Rightarrow> jsval \<Rightarrow> state \<Rightarrow> error + state" where
  "pubsub_callback parse c err reply s = onPubsubMessage parse c err s"

section \<open>Sequences of operations\<close>

text \<open>
  What can happen to a manager after its construction: the public operations, the
  private \<open>acquire\<close>, \<open>release\<close> and \<open>evict\<close>, the handlers the driver calls, and the driver
  changing the length of a client's queue.  \<open>run\<close> and \<open>unsubscribe\<close> suspend at their raw
  call: \<open>RunStart\<close> and \<open>UnsubscribeStart\<close> run them up to there, \<open>RunSettle\<close> and
  \<open>UnsubscribeSettle\<close> run the callbacks of the promise, and any operation may come in
  between; \<open>Run\<close> and \<open>Unsubscribe\<close> are the two halves with nothing in between.
  \<open>PubsubMessage\<close> is the driver calling the callback of \<open>subscribe\<close> with an error and a
  reply.  An operation that throws leaves the state as it was.
\<close>

datatype op =
    Run "arg list" int tick outcome
  | RunStart "arg list" int tick
  | RunSettle client outcome
  | Subscribe "string list" int tick
  | Unsubscribe "string list" int tick outcome
  | UnsubscribeStart "string list" int tick
  | UnsubscribeSettle bool outcome
  | Acquire "string option" tick
  | Release client
  | Evict int
  | ClientError bool client jsval "nat \<Rightarrow> tick"
  | PubsubMessage client jsval jsval
  | Traffic string nat

text \<open>The driver sets the length of the queue of the client stored under \<open>k\<close>.\<close>

definition requeue :: "string \<Rightarrow> nat \<Rightarrow> (string \<times> client) list \<Rightarrow> (string \<times> client) list" where
  "requeue k n m = map (\<lambda>(k', c). if k' = k then (k', c\<lparr>queue := n\<rparr>) else (k', c)) m"

fun exec :: "(bytes \<Rightarrow> string) \<Rightarrow> (string \<Rightarrow> bytes) \<Rightarrow> op \<Rightarrow> state \<Rightarrow> state" where
  "exec sf pf (Run command now t reply) s =
     (case run sf command now t reply s of Inl e \<Rightarrow> s | Inr (r, s') \<Rightarrow> s')"
| "exec sf pf (RunStart command now t) s =
     (case run_start sf command now t s of Inl e \<Rightarrow> s | Inr (c, s') \<Rightarrow> s')"
| "exec sf pf (RunSettle c reply) s = snd (run_settle c reply s)"
| "exec sf pf (Subscribe topic now t) s =
     (case subscribe topic now t s of Inl e \<Rightarrow> s | Inr (r, s') \<Rightarrow> s')"
| "exec sf pf (Unsubscribe topic now t reply) s =
     (case unsubscribe topic now t reply s of Inl e \<Rightarrow> s | Inr (r, s') \<Rightarrow> s')"
| "exec sf pf (UnsubscribeStart topic now t) s =
     (case unsubscribe_start topic now t s of Inl e \<Rightarrow> s | Inr (off, s') \<Rightarrow> s')"
| "exec sf pf (UnsubscribeSettle off reply) s = snd (unsubscribe_settle off reply s)"
| "exec sf pf (Acquire idopt t) s =
     (case acquire idopt t s of Inl e \<Rightarrow> s | Inr (c, s') \<Rightarrow> s')"
| "exec sf pf (Release c) s = release c s"
| "exec sf pf (Evict now) s = evict now s"
| "exec sf pf (ClientError listening c err tk) s =
     (case onClientError listening c err tk s of Inl e \<Rightarrow> s | Inr s' \<Rightarrow> s')"
| "exec sf pf (PubsubMessage c err reply) s =
     (case pubsub_callback pf c err reply s of Inl e \<Rightarrow> s | Inr s' \<Rightarrow> s')"
| "exec sf pf (Traffic k n) s = s\<lparr>pool := requeue k n (pool s)\<rparr>"

text \<open>
  What every operation keeps: \<open>poolUsed\<close> holds no client object, every client sits
  under its own, non-empty name, and keys are unique; a manager with \<open>minPool \<ge> 1\<close>
  never has an empty pool.
\<close>

definition no_client :: "jsval set \<Rightarrow> bool" where
  "no_client U = (\<forall>c. JClient c \<notin> U)"

definition named :: "(string \<times> client) list \<Rightarrow> bool" where
  "named m = list_all (\<lambda>(k, c). name c = k \<and> k \<noteq> []) m"

definition pool_wf :: "state \<Rightarrow> bool" where
  "pool_wf s = (no_client (poolUsed s) \<and> named (pool s) \<and> distinct (map fst (pool s)))"

definition pool_ok :: "state \<Rightarrow> bool" where
  "pool_ok s = (pool_wf s \<and> (1 \<le> minPool s \<longrightarrow> pool s \<noteq> []))"





section \<open>Concrete environments\<close>

text \<open>An environment in which every \<open>Date.now()\<close> of a loop reads \<open>n\<close> and the \<open>i\<close>-th
  random number is \<open>i\<close>; the process id is 7 and the time to live 1000 ms throughout.\<close>

definition ticks_at :: "int \<Rightarrow> nat \<Rightarrow> tick" where
  "ticks_at n i = \<lparr>now_id = n, rnd = i, now_used = n\<rparr>"

definition fresh_pool :: "nat \<Rightarrow> nat \<Rightarrow> state" where
  "fresh_pool minP maxP = construct minP maxP 1000 7 (ticks_at 1)"

definition pool_names :: "state \<Rightarrow> string list" where
  "pool_names s = map fst (pool s)"

text \<open>A codec for examples: one character per byte.\<close>

definition stringify0 :: "bytes \<Rightarrow> string" where
  "stringify0 b = map (\<lambda>w. char_of (unat w)) b"

definition parse0 :: "string \<Rightarrow> bytes" where
  "parse0 t = map (\<lambda>c. of_nat (of_char c)) t"

section \<open>What the operations keep\<close>

lemma uniqueID_nonempty: "uniqueID p t \<noteq> []"
  by (simp add: uniqueID_def)

lemma named_update: "named m \<Longrightarrow> name c = k \<Longrightarrow> k \<noteq> [] \<Longrightarrow> named (AList.update k c m)"
  by (induction m) (auto simp: named_def)

lemma named_delete: "named m \<Longrightarrow> named (AList.delete k m)"
  by (induction m) (auto simp: named_def)

lemma named_touch: "named m \<Longrightarrow> named (touch k now m)"
  by (induction m) (auto simp: named_def touch_def split: if_splits)

lemma fst_touch: "map fst (touch k now m) = map fst m"
  by (induction m) (auto simp: touch_def)

lemma touch_Nil: "(touch k now m = []) = (m = [])"
  by (simp add: touch_def)

lemma length_delete_distinct:
  "distinct (map fst m) \<Longrightarrow> length m \<le> Suc (length (AList.delete k m))"
  by (induction m) auto

lemma create_eq:
  "create t s = (uniqueID (pid s) t,
     s\<lparr>pool := AList.update (uniqueID (pid s) t)
         \<lparr>name = uniqueID (pid s) t, lastUsedTime = now_used t, queue = 0\<rparr> (pool s)\<rparr>)"
  by (simp add: create_def Let_def)

lemma pool_wf_create: "pool_wf s \<Longrightarrow> pool_wf (snd (create t s))"
  by (simp add: create_eq pool_wf_def named_update uniqueID_nonempty distinct_update)

lemma create_frame:
  "minPool (snd (create t s)) = minPool s" "maxPool (snd (create t s)) = maxPool s"
  "PSTopics (snd (create t s)) = PSTopics s" "poolUsedPS (snd (create t s)) = poolUsedPS s"
  "pool (snd (create t s)) \<noteq> []"
  by (simp_all add: create_eq)

lemma create_n_Suc: "create_n (Suc n) tk s = snd (create (tk n) (create_n n tk s))"
  by (simp add: create_n_def)

lemma create_n_0: "create_n 0 tk s = s"
  by (simp add: create_n_def)

lemma pool_wf_create_n: "pool_wf s \<Longrightarrow> pool_wf (create_n n tk s)"
  by (induction n) (simp_all add: create_n_0 create_n_Suc pool_wf_create)

lemma create_n_frame:
  "minPool (create_n n tk s) = minPool s \<and> maxPool (create_n n tk s) = maxPool s \<and>
   PSTopics (create_n n tk s) = PSTopics s \<and> poolUsedPS (create_n n tk s) = poolUsedPS s"
  by (induction n) (simp_all add: create_n_0 create_n_Suc create_frame)

lemma create_n_nonempty: "0 < n \<Longrightarrow> pool (create_n n tk s) \<noteq> []"
  by (cases n) (simp_all add: create_n_Suc create_frame)

lemma pool_ok_create_n: "pool_wf s \<Longrightarrow> 1 \<le> minPool s \<longrightarrow> 0 < n \<Longrightarrow> pool_ok (create_n n tk s)"
  using create_n_nonempty [of n tk s] create_n_frame [of n tk s]
  by (auto simp add: pool_ok_def pool_wf_create_n)

lemma pool_ok_construct: "pool_ok (construct minP maxP ttl p tk)"
  unfolding construct_def
  by (rule pool_ok_create_n) (simp_all add: pool_wf_def no_client_def named_def)

lemma construct_frame:
  "minPool (construct minP maxP ttl p tk) = minP \<and> PSTopics (construct minP maxP ttl p tk) = []
   \<and> poolUsedPS (construct minP maxP ttl p tk) = []"
  using create_n_frame [of minP tk] by (simp add: construct_def)

lemma candidate_all: "no_client (poolUsed s) \<Longrightarrow> candidate s x"
  by (simp add: candidate_def no_client_def)

lemma clientList_all: "no_client (poolUsed s) \<Longrightarrow> clientList s = sort_key queue (map snd (pool s))"
  by (simp add: clientList_def candidate_all)

lemma clientList_set: "no_client (poolUsed s) \<Longrightarrow> set (clientList s) = snd ` set (pool s)"
  by (simp add: clientList_all)

lemma clientList_Nil: "no_client (poolUsed s) \<Longrightarrow> (clientList s = []) = (pool s = [])"
  using clientList_set [of s] by (metis image_is_empty set_empty)

lemma acquire_select:
  assumes "no_client (poolUsed s)" and "pool s \<noteq> []"
  shows "\<exists>c. c \<in> snd ` set (pool s) \<and>
             acquire None t s = Inr (Some c, s\<lparr>poolUsed := insert JUndefined (poolUsed s)\<rparr>)"
proof (cases "clientList s")
  case Nil
  with assms show ?thesis by (simp add: clientList_Nil)
next
  case (Cons c rest)
  then have "c \<in> snd ` set (pool s)"
    using clientList_set [OF assms(1)] by (metis list.set_intros(1))
  moreover have "acquire None t s = Inr (Some c, s\<lparr>poolUsed := insert JUndefined (poolUsed s)\<rparr>)"
    using Cons by (simp add: acquire_def client_id_def)
  ultimately show ?thesis by blast
qed

lemma acquire_create:
  assumes "pool s = []"
  shows "acquire None t s =
           (if 0 < maxPool s
            then Inr (Some \<lparr>name = uniqueID (pid s) t, lastUsedTime = now_used t, queue = 0\<rparr>,
                      (snd (create t s))\<lparr>poolUsed := insert (JStr (uniqueID (pid s) t)) (poolUsed s)\<rparr>)
            else Inl PoolExhausted)"
  using assms by (simp add: acquire_def clientList_def create_eq)

lemma pool_wf_used: "pool_wf s \<Longrightarrow> no_client (insert v (poolUsed s)) \<Longrightarrow> pool_wf (s\<lparr>poolUsed := insert v (poolUsed s)\<rparr>)"
  by (simp add: pool_wf_def)

lemma acquire_None_cases:
  assumes "pool_wf s" and "acquire None t s = Inr (co, s')"
  shows "\<exists>c. co = Some c \<and> (name c, c) \<in> set (pool s') \<and> pool_wf s' \<and> pool s' \<noteq> [] \<and>
             minPool s' = minPool s \<and> PSTopics s' = PSTopics s \<and> poolUsedPS s' = poolUsedPS s"
proof (cases "pool s = []")
  case True
  then show ?thesis
    using assms pool_wf_create [OF assms(1), of t]
    by (auto simp add: acquire_create create_eq pool_wf_def no_client_def split: if_splits)
next
  case False
  from assms(1) have nc: "no_client (poolUsed s)" by (simp add: pool_wf_def)
  from acquire_select [OF nc False, of t] assms(2)
  obtain c where c: "c \<in> snd ` set (pool s)" "co = Some c"
    "s' = s\<lparr>poolUsed := insert JUndefined (poolUsed s)\<rparr>" by auto
  from c(1) assms(1) have "(name c, c) \<in> set (pool s)"
    by (auto simp: pool_wf_def named_def list_all_iff)
  with c False assms(1) show ?thesis
    by (simp add: pool_wf_def no_client_def)
qed


lemma acquire_empty_id: "acquire (Some []) t s = acquire None t s"
  by (simp add: acquire_def)

lemma acquire_Some:
  "i \<noteq> [] \<Longrightarrow> acquire (Some i) t s = Inr (map_of (pool s) i, s\<lparr>poolUsed := insert (JStr i) (poolUsed s)\<rparr>)"
  by (simp add: acquire_def)

lemma acquire_frame:
  "acquire idopt t s = Inr (co, s') \<Longrightarrow>
     minPool s' = minPool s \<and> PSTopics s' = PSTopics s \<and> poolUsedPS s' = poolUsedPS s"
  by (auto simp: acquire_def create_eq split: option.splits list.splits if_splits)

lemma acquire_pool_ok:
  assumes "pool_ok s" and "acquire idopt t s = Inr (co, s')"
  shows "pool_ok s'"
proof (cases "idopt = None \<or> idopt = Some []")
  case True
  then have "acquire None t s = Inr (co, s')"
    using assms(2) by (auto simp: acquire_empty_id)
  with assms(1) show ?thesis
    using acquire_None_cases [of s t co s'] by (auto simp: pool_ok_def)
next
  case False
  then obtain i where "idopt = Some i" "i \<noteq> []" by (cases idopt) auto
  with assms show ?thesis
    by (auto simp: acquire_Some pool_ok_def pool_wf_def no_client_def)
qed

lemma pool_wf_touch: "pool_wf s \<Longrightarrow> pool_wf (s\<lparr>pool := touch k now (pool s)\<rparr>)"
  by (simp add: pool_wf_def named_touch fst_touch)

lemma pool_ok_touch: "pool_ok s \<Longrightarrow> pool_ok (s\<lparr>pool := touch k now (pool s)\<rparr>)"
  by (simp add: pool_ok_def pool_wf_touch touch_Nil)

lemma pool_ok_sent: "pool_ok (s\<lparr>sent := x\<rparr>) = pool_ok s"
  by (simp add: pool_ok_def pool_wf_def)

lemma pool_ok_emitted: "pool_ok (s\<lparr>emitted := x\<rparr>) = pool_ok s"
  by (simp add: pool_ok_def pool_wf_def)

lemma run_start_cases:
  assumes "run_start sf command now t s = Inr (c, s')"
  shows "\<exists>c0 s1. acquire None t s = Inr (Some c0, s1) \<and> c = c0\<lparr>lastUsedTime := now\<rparr> \<and>
           s' = s1\<lparr>pool := touch (name c0) now (pool s1),
                    sent := sent s1 @ [RawCallAsync (name c0) (map (encode sf) command)]\<rparr>"
  using assms by (auto simp: run_start_def split: sum.splits option.splits)

lemma run_start_pool_ok:
  assumes "pool_ok s" and "run_start sf command now t s = Inr (c, s')"
  shows "pool_ok s' \<and> minPool s' = minPool s \<and> PSTopics s' = PSTopics s \<and>
         poolUsedPS s' = poolUsedPS s"
proof -
  from run_start_cases [OF assms(2)] obtain c0 s1 where a: "acquire None t s = Inr (Some c0, s1)"
    and s': "s' = s1\<lparr>pool := touch (name c0) now (pool s1),
                      sent := sent s1 @ [RawCallAsync (name c0) (map (encode sf) command)]\<rparr>"
    by blast
  from acquire_pool_ok [OF assms(1) a] acquire_frame [OF a] show ?thesis
    unfolding s' by (simp add: pool_ok_sent pool_ok_touch)
qed

lemma release_pool_ok: "pool_ok s \<Longrightarrow> pool_ok (release c s)"
  by (simp add: release_def pool_ok_def pool_wf_def no_client_def)

lemma run_settle_pool_ok: "pool_ok s \<Longrightarrow> pool_ok (snd (run_settle c reply s))"
  by (cases reply) (simp_all add: run_settle_def release_pool_ok)

lemma run_settle_frame:
  "minPool (snd (run_settle c reply s)) = minPool s \<and>
   PSTopics (snd (run_settle c reply s)) = PSTopics s \<and>
   poolUsedPS (snd (run_settle c reply s)) = poolUsedPS s"
  by (cases reply) (simp_all add: run_settle_def release_def)

lemma subscribe_cases:
  assumes "subscribe topic now t s = Inr (r, s')"
  shows "\<exists>c s1. acquire None t s = Inr (Some c, s1) \<and> r = Resolved (JBool True) \<and>
           s' = s1\<lparr>pool := touch (name c) now (pool s1), poolUsedPS := name c,
                    PSTopics := PSTopics s1 @ topic,
                    sent := sent s1 @ [RawCall (name c) (''PSUBSCRIBE'' # topic)]\<rparr>"
  using assms by (auto simp: subscribe_def split: sum.splits option.splits)

lemma subscribe_pool_ok:
  assumes "pool_ok s" and "subscribe topic now t s = Inr (r, s')"
  shows "pool_ok s' \<and> minPool s' = minPool s \<and> poolUsedPS s' \<noteq> []"
proof -
  from subscribe_cases [OF assms(2)] obtain c s1 where a: "acquire None t s = Inr (Some c, s1)"
    and s': "s' = s1\<lparr>pool := touch (name c) now (pool s1), poolUsedPS := name c,
                    PSTopics := PSTopics s1 @ topic,
                    sent := sent s1 @ [RawCall (name c) (''PSUBSCRIBE'' # topic)]\<rparr>"
    by blast
  from assms(1) have wf: "pool_wf s" by (simp add: pool_ok_def)
  from acquire_None_cases [OF wf a] have c: "(name c, c) \<in> set (pool s1)" by simp
  from acquire_pool_ok [OF assms(1) a] have ok: "pool_ok s1" .
  from ok c have "name c \<noteq> []"
    by (auto simp: pool_ok_def pool_wf_def named_def list_all_iff)
  with ok acquire_frame [OF a] show ?thesis
    unfolding s' by (simp add: pool_ok_def pool_wf_def named_touch fst_touch touch_Nil)
qed

lemma unsubscribe_start_cases:
  assumes "unsubscribe_start topic now t s = Inr (off, s')"
  shows "\<exists>c s1. acquire None t s = Inr (Some c, s1) \<and>
           off = (filter (\<lambda>x. x \<notin> set topic) (PSTopics s1) = []) \<and>
           s' = s1\<lparr>pool := touch (name c) now (pool s1),
                    PSTopics := filter (\<lambda>x. x \<notin> set topic) (PSTopics s1),
                    sent := sent s1 @ [RawCallAsync (name c) (''PUNSUBSCRIBE'' # topic)]\<rparr>"
  using assms
  by (auto simp: unsubscribe_start_def Let_def split: sum.splits option.splits)

lemma unsubscribe_start_pool_ok:
  assumes "pool_ok s" and "unsubscribe_start topic now t s = Inr (off, s')"
  shows "pool_ok s' \<and> minPool s' = minPool s \<and> poolUsedPS s' = poolUsedPS s \<and>
         PSTopics s' = filter (\<lambda>x. x \<notin> set topic) (PSTopics s) \<and> off = (PSTopics s' = [])"
proof -
  from unsubscribe_start_cases [OF assms(2)] obtain c s1 where
    a: "acquire None t s = Inr (Some c, s1)" and
    off: "off = (filter (\<lambda>x. x \<notin> set topic) (PSTopics s1) = [])" and
    s': "s' = s1\<lparr>pool := touch (name c) now (pool s1),
                    PSTopics := filter (\<lambda>x. x \<notin> set topic) (PSTopics s1),
                    sent := sent s1 @ [RawCallAsync (name c) (''PUNSUBSCRIBE'' # topic)]\<rparr>"
    by blast
  from acquire_pool_ok [OF assms(1) a] acquire_frame [OF a] off show ?thesis
    unfolding s' by (simp add: pool_ok_def pool_wf_def named_touch fst_touch touch_Nil)
qed

lemma unsubscribe_settle_pool_ok:
  "pool_ok s \<Longrightarrow> pool_ok (snd (unsubscribe_settle off reply s)) \<and>
     minPool (snd (unsubscribe_settle off reply s)) = minPool s \<and>
     PSTopics (snd (unsubscribe_settle off reply s)) = PSTopics s"
  by (cases reply) (simp_all add: unsubscribe_settle_def pool_ok_def pool_wf_def)

lemma unsubscribe_cases:
  assumes "unsubscribe topic now t reply s = Inr (r, s')"
  shows "\<exists>off s1. unsubscribe_start topic now t s = Inr (off, s1) \<and>
           (r, s') = unsubscribe_settle off reply s1"
  using assms by (auto simp: unsubscribe_def split: sum.splits)

lemma unsubscribe_pool_ok:
  assumes "pool_ok s" and "unsubscribe topic now t reply s = Inr (r, s')"
  shows "pool_ok s' \<and> minPool s' = minPool s"
proof -
  from unsubscribe_cases [OF assms(2)] obtain off s1 where
    a: "unsubscribe_start topic now t s = Inr (off, s1)" and
    s': "(r, s') = unsubscribe_settle off reply s1" by blast
  from s' have "s' = snd (unsubscribe_settle off reply s1)" by (metis snd_conv)
  with unsubscribe_start_pool_ok [OF assms(1) a] unsubscribe_settle_pool_ok [of s1 off reply]
  show ?thesis by simp
qed

lemma evict_step_pool_ok: "pool_ok s \<Longrightarrow> pool_ok (evict_step now c s)"
proof -
  assume ok: "pool_ok s"
  have "pool_ok (s\<lparr>ended := ended s @ [name c], pool := AList.delete (name c) (pool s)\<rparr>)"
    if "minPool s < length (pool s)"
  proof -
    from ok have d: "distinct (map fst (pool s))" by (simp add: pool_ok_def pool_wf_def)
    from length_delete_distinct [OF d, of "name c"] that
    have "1 \<le> minPool s \<longrightarrow> AList.delete (name c) (pool s) \<noteq> []" by auto
    with ok show ?thesis
      by (simp add: pool_ok_def pool_wf_def named_delete distinct_delete)
  qed
  with ok show ?thesis by (simp add: evict_step_def)
qed

lemma evict_step_frame:
  "minPool (evict_step now c s) = minPool s \<and> PSTopics (evict_step now c s) = PSTopics s \<and>
   poolUsedPS (evict_step now c s) = poolUsedPS s"
  by (simp add: evict_step_def)

lemma fold_evict_step:
  "pool_ok s \<Longrightarrow> pool_ok (fold (evict_step now) cs s) \<and>
     minPool (fold (evict_step now) cs s) = minPool s \<and>
     PSTopics (fold (evict_step now) cs s) = PSTopics s \<and>
     poolUsedPS (fold (evict_step now) cs s) = poolUsedPS s"
  by (induction cs arbitrary: s) (simp_all add: evict_step_pool_ok evict_step_frame)

lemma evict_pool_ok:
  "pool_ok s \<Longrightarrow> pool_ok (evict now s) \<and> minPool (evict now s) = minPool s \<and>
     PSTopics (evict now s) = PSTopics s \<and> poolUsedPS (evict now s) = poolUsedPS s"
  unfolding evict_def by (rule fold_evict_step)

lemma onClientError_pool_ok:
  assumes "pool_ok s" and "onClientError listening c err tk s = Inr s'"
  shows "pool_ok s' \<and> minPool s' = minPool s \<and> PSTopics s' = PSTopics s \<and>
         poolUsedPS s' = poolUsedPS s"
proof -
  let ?s2 = "s\<lparr>emitted := emitted s @ [(''error'', [JStr (name c), err])],
               pool := AList.delete (name c) (pool s)\<rparr>"
  from assms(1) have wf2: "pool_wf ?s2"
    by (simp add: pool_ok_def pool_wf_def named_delete distinct_delete)
  show ?thesis
  proof (cases "length (pool ?s2) < minPool ?s2")
    case True
    then have "1 \<le> minPool ?s2 \<longrightarrow> 0 < minPool ?s2" by simp
    from pool_ok_create_n [OF wf2 this, of tk] create_n_frame [of "minPool ?s2" tk ?s2]
      True assms(2)
    show ?thesis by (simp add: onClientError_def Let_def split: if_splits)
  next
    case False
    then have "1 \<le> minPool s \<longrightarrow> AList.delete (name c) (pool s) \<noteq> []" by auto
    with wf2 False assms(2) show ?thesis
      by (auto simp add: onClientError_def Let_def pool_ok_def pool_wf_def split: if_splits)
  qed
qed

lemma onPubsubMessage_not_array:
  "(\<And>xs. message \<noteq> JArray xs) \<Longrightarrow> onPubsubMessage pf c message s = Inl TypeError"
  by (cases message) (auto simp: onPubsubMessage_def)

lemma onPubsubMessage_cases:
  "onPubsubMessage pf c message s = Inr s' \<Longrightarrow> \<exists>e. s' = s\<lparr>emitted := e\<rparr>"
proof (cases message)
  case (JArray xs)
  assume "onPubsubMessage pf c message s = Inr s'"
  with JArray show ?thesis
    by (cases "if xs = [] then JUndefined else last xs")
      (auto simp: onPubsubMessage_def Let_def split: if_splits)
qed (simp_all add: onPubsubMessage_def)

lemma fst_requeue: "map fst (requeue k n m) = map fst m"
  by (induction m) (auto simp: requeue_def)

lemma named_requeue: "named m \<Longrightarrow> named (requeue k n m)"
  by (induction m) (auto simp: named_def requeue_def split: if_splits)

lemma requeue_Nil: "(requeue k n m = []) = (m = [])"
  by (simp add: requeue_def)

lemma traffic_pool_ok: "pool_ok s \<Longrightarrow> pool_ok (s\<lparr>pool := requeue k n (pool s)\<rparr>)"
  by (simp add: pool_ok_def pool_wf_def fst_requeue named_requeue requeue_Nil)

lemma exec_pool_ok:
  assumes ok: "pool_ok s"
  shows "pool_ok (exec sf pf x s) \<and> minPool (exec sf pf x s) = minPool s"
proof (cases x)
  case (Run command now t reply)
  show ?thesis
  proof (cases "run_start sf command now t s")
    case (Inl e)
    with ok Run show ?thesis by (simp add: run_def)
  next
    case (Inr p)
    obtain c s1 where p: "p = (c, s1)" by (cases p)
    from run_start_pool_ok [OF ok Inr [unfolded p]]
      run_settle_pool_ok [of s1 c reply] run_settle_frame [of c reply s1]
    show ?thesis using Run Inr p by (simp add: run_def split_beta)
  qed
next
  case (RunStart command now t)
  show ?thesis
  proof (cases "run_start sf command now t s")
    case (Inl e)
    with ok RunStart show ?thesis by simp
  next
    case (Inr p)
    obtain c s1 where p: "p = (c, s1)" by (cases p)
    from run_start_pool_ok [OF ok Inr [unfolded p]]
    show ?thesis using RunStart Inr p by simp
  qed
next
  case (RunSettle c reply)
  then show ?thesis
    using run_settle_pool_ok [OF ok, of c reply] run_settle_frame [of c reply s] by simp
next
  case (Subscribe topic now t)
  show ?thesis
  proof (cases "subscribe topic now t s")
    case (Inl e)
    with ok Subscribe show ?thesis by simp
  next
    case (Inr p)
    obtain r s1 where p: "p = (r, s1)" by (cases p)
    from subscribe_pool_ok [OF ok Inr [unfolded p]]
    show ?thesis using Subscribe Inr p by simp
  qed
next
  case (Unsubscribe topic now t reply)
  show ?thesis
  proof (cases "unsubscribe topic now t reply s")
    case (Inl e)
    with ok Unsubscribe show ?thesis by simp
  next
    case (Inr p)
    obtain r s1 where p: "p = (r, s1)" by (cases p)
    from unsubscribe_pool_ok [OF ok Inr [unfolded p]]
    show ?thesis using Unsubscribe Inr p by simp
  qed
next
  case (UnsubscribeStart topic now t)
  show ?thesis
  proof (cases "unsubscribe_start topic now t s")
    case (Inl e)
    with ok UnsubscribeStart show ?thesis by simp
  next
    case (Inr p)
    obtain off s1 where p: "p = (off, s1)" by (cases p)
    from unsubscribe_start_pool_ok [OF ok Inr [unfolded p]]
    show ?thesis using UnsubscribeStart Inr p by simp
  qed
next
  case (UnsubscribeSettle off reply)
  then show ?thesis using unsubscribe_settle_pool_ok [OF ok, of off reply] by simp
next
  case (Acquire idopt t)
  show ?thesis
  proof (cases "acquire idopt t s")
    case (Inl e)
    with ok Acquire show ?thesis by simp
  next
    case (Inr p)
    obtain co s1 where p: "p = (co, s1)" by (cases p)
    from acquire_pool_ok [OF ok Inr [unfolded p]] acquire_frame [OF Inr [unfolded p]]
    show ?thesis using Acquire Inr p by simp
  qed
next
  case (Release c)
  then show ?thesis
    using release_pool_ok [OF ok, of c] by (simp add: release_def)
next
  case (Evict now)
  then show ?thesis using evict_pool_ok [OF ok, of now] by simp
next
  case (ClientError listening c err tk)
  show ?thesis
  proof (cases "onClientError listening c err tk s")
    case (Inl e)
    with ok ClientError show ?thesis by simp
  next
    case (Inr s1)
    from onClientError_pool_ok [OF ok Inr]
    show ?thesis using ClientError Inr by simp
  qed
next
  case (PubsubMessage c err reply)
  show ?thesis
  proof (cases "onPubsubMessage pf c err s")
    case (Inl e)
    with ok PubsubMessage show ?thesis by (simp add: pubsub_callback_def)
  next
    case (Inr s1)
    from onPubsubMessage_cases [OF Inr] obtain e where "s1 = s\<lparr>emitted := e\<rparr>" by blast
    with ok show ?thesis using PubsubMessage Inr
      by (simp add: pool_ok_emitted pubsub_callback_def)
  qed
next
  case (Traffic k n)
  then show ?thesis using traffic_pool_ok [OF ok, of k n] by simp
qed

lemma fold_exec_pool_ok:
  "pool_ok s \<Longrightarrow> pool_ok (fold (exec sf pf) ops s) \<and> minPool (fold (exec sf pf) ops s) = minPool s"
  by (induction ops arbitrary: s) (simp_all add: exec_pool_ok)

lemma reachable_pool_ok:
  "pool_ok (fold (exec sf pf) ops (construct minP maxP ttl p tk)) \<and>
   minPool (fold (exec sf pf) ops (construct minP maxP ttl p tk)) = minP"
  using fold_exec_pool_ok [OF pool_ok_construct, of sf pf ops minP maxP ttl p tk]
  by (simp add: construct_frame)










lemma map_of_named: "named m \<Longrightarrow> (k, c) \<in> set m \<Longrightarrow> distinct (map fst m) \<Longrightarrow> map_of m k = Some c"
  by simp

lemma acquire_succeeds:
  assumes "pool_wf s" and "pool s \<noteq> [] \<or> 0 < maxPool s"
  shows "\<exists>c s'. acquire None t s = Inr (Some c, s')"
proof (cases "pool s = []")
  case True
  with assms(2) show ?thesis by (simp add: acquire_create)
next
  case False
  from assms(1) have "no_client (poolUsed s)" by (simp add: pool_wf_def)
  from acquire_select [OF this False, of t] show ?thesis by blast
qed


lemma byte_char: "word_of_nat (of_char (char_of (unat (w :: 8 word)))) = w"
proof -
  have "unat w < 256" using unsigned_less [of w] by simp
  then show ?thesis by simp
qed

lemma codec0: "parse0 (stringify0 b) = b"
  by (induction b) (simp_all add: parse0_def stringify0_def byte_char del: of_char_of)



lemma acquire_sent: "acquire idopt t s = Inr (co, s') \<Longrightarrow> sent s' = sent s"
  by (auto simp: acquire_def create_eq split: option.splits list.splits if_splits)

lemma subscribe_succeeds:
  assumes "pool_wf s" and "pool s \<noteq> [] \<or> 0 < maxPool s"
  shows "\<exists>s'. subscribe topic now t s = Inr (Resolved (JBool True), s') \<and>
              sent s' = sent s @ [RawCall (poolUsedPS s') (''PSUBSCRIBE'' # topic)]"
proof -
  from acquire_succeeds [OF assms, of t] obtain c s0 where
    a: "acquire None t s = Inr (Some c, s0)" by blast
  from acquire_sent [OF a] a show ?thesis by (simp add: subscribe_def)
qed

lemma subscribe_throws:
  "pool s = [] \<Longrightarrow> maxPool s = 0 \<Longrightarrow> subscribe topic now t s = Inl PoolExhausted"
  by (simp add: subscribe_def acquire_create)

text \<open>The handler decodes what \<open>run\<close> encodes when it is handed the frame itself; the
  callback \<open>subscribe\<close> installs never hands it the frame.\<close>

lemma decode_encode:
  assumes "\<forall>b. parse (stringify b) = b"
  shows "onPubsubMessage parse c (JArray (frame @ [JStr (encode stringify (Binary b))])) s =
            Inr (s\<lparr>emitted := emitted s @
                   [(''message'',
                     [JObject [(''client'', JClient c),
                               (''topic'', if 2 \<le> length frame
                                           then (frame @ [JStr (encode stringify (Binary b))]) ! 2
                                           else JUndefined),
                               (''data'', JBuf b)]])]\<rparr>)"
  using assms by (simp add: encode_def onPubsubMessage_def Let_def)

lemma pubsub_callback_throws:
  "(\<And>xs. err \<noteq> JArray xs) \<Longrightarrow> pubsub_callback parse c err reply s = Inl TypeError"
  by (simp add: pubsub_callback_def onPubsubMessage_not_array)

section \<open>The in-use set and automatic selection\<close>

text \<open>
  C1.  A connection whose identifier is in \<open>poolUsed\<close> is never returned by the automatic
  selection of \<open>acquire()\<close>.  The code does not keep this: the filter looks the client
  object up in a set of identifiers, so it removes nothing.  With \<open>minPool = 1\<close>, after
  \<open>acquire(id)\<close> has marked the only connection, \<open>acquire()\<close> returns that connection; with
  \<open>minPool = 0\<close>, the connection the first \<open>acquire()\<close> created and marked is returned by
  the second.
\<close>

theorem acquire_returns_client_in_poolUsed:
  "(case acquire (Some ''7-1-0'') (ticks_at 2 0) (fresh_pool 1 1) of
      Inr (Some c, s1) \<Rightarrow>
        JStr (name c) \<in> poolUsed s1 \<and>
        (case acquire None (ticks_at 3 0) s1 of Inr (Some c', s2) \<Rightarrow> c' = c | _ \<Rightarrow> False)
    | _ \<Rightarrow> False) \<and>
   (case acquire None (ticks_at 2 0) (fresh_pool 0 1) of
      Inr (Some c, s1) \<Rightarrow>
        JStr (name c) \<in> poolUsed s1 \<and>
        (case acquire None (ticks_at 3 0) s1 of Inr (Some c', s2) \<Rightarrow> c' = c | _ \<Rightarrow> False)
    | _ \<Rightarrow> False)"
  by code_simp

section \<open>Pool size and self-healing\<close>

text \<open>
  C2.  In every reachable state \<open>minPool \<le> |Pool| \<le> maxPool\<close>.  The code does not keep
  the upper bound: with \<open>minPool = maxPool = 2\<close>, a fatal error on one of the two
  connections of the constructed pool leaves three connections.
\<close>

theorem pool_exceeds_maxPool_after_error:
  "map_of (pool (fresh_pool 2 2)) ''7-1-0'' = Some \<lparr>name = ''7-1-0'', lastUsedTime = 1, queue = 0\<rparr> \<and>
   length (pool (fresh_pool 2 2)) = 2 \<and>
   (case onClientError True \<lparr>name = ''7-1-0'', lastUsedTime = 1, queue = 0\<rparr> (JStr ''ECONNRESET'')
           (ticks_at 5) (fresh_pool 2 2) of
      Inr s \<Rightarrow> minPool s = 2 \<and> maxPool s = 2 \<and> length (pool s) = 3
    | Inl e \<Rightarrow> False)"
  by code_simp

text \<open>
  C3.  After a fatal error the handler creates exactly enough connections to bring the
  pool back to \<open>minPool\<close>.  The code creates \<open>minPool\<close> connections whenever the pool has
  fallen below \<open>minPool\<close>: from a full pool of two with \<open>minPool = 2\<close>, one fatal error
  leaves the surviving connection and two new ones.
\<close>

theorem onClientError_creates_minPool_clients:
  "pool_names (fresh_pool 2 10) = [''7-1-0'', ''7-1-1''] \<and>
   map_sum id pool_names
     (onClientError True \<lparr>name = ''7-1-0'', lastUsedTime = 1, queue = 0\<rparr> (JStr ''ECONNRESET'')
        (ticks_at 5) (fresh_pool 2 10))
     = Inr [''7-1-1'', ''7-5-0'', ''7-5-1'']"
  by code_simp

section \<open>Release on the exit paths of \<open>run\<close>\<close>

text \<open>
  C4.  \<open>run\<close> releases the connection it acquired on success and on failure.  The code
  releases in the fulfilment callback only.  With \<open>minPool = 0\<close> the connection is
  created and marked by its name: after a rejected command the name is still in
  \<open>poolUsed\<close>, after a fulfilled one it is not.  With \<open>minPool = 1\<close> the existing
  connection is selected and the mark \<open>acquire\<close> adds is \<open>undefined\<close>, which \<open>release\<close>
  does not remove even when the command is fulfilled.
\<close>

theorem run_rejected_keeps_mark:
  "map_sum id (map_prod id poolUsed)
     (run stringify0 [Text ''GET'', Text ''k''] 2 (ticks_at 2 0) (Rejected (JStr ''ERR'')) (fresh_pool 0 1))
     = Inr (Rejected (JStr ''ERR''), {JStr ''7-2-0''}) \<and>
   map_sum id (map_prod id poolUsed)
     (run stringify0 [Text ''GET'', Text ''k''] 2 (ticks_at 2 0) (Resolved (JStr ''v'')) (fresh_pool 0 1))
     = Inr (Resolved (JStr ''v''), {}) \<and>
   map_sum id (map_prod id poolUsed)
     (run stringify0 [Text ''GET'', Text ''k''] 2 (ticks_at 2 0) (Resolved (JStr ''v'')) (fresh_pool 1 1))
     = Inr (Resolved (JStr ''v''), {JUndefined})"
  by code_simp

section \<open>Eviction\<close>

text \<open>
  C5.  \<open>evict\<close> never closes or removes a connection whose identifier is in \<open>poolUsed\<close>.
  The code has no such check.  With \<open>minPool = 0\<close>, the connection of a command that has
  been pending for the time to live is ended and removed.  With \<open>minPool = 2\<close>, after a
  fatal error has left three connections, the one marked by \<open>acquire(id)\<close> is ended and
  removed.
\<close>

theorem evict_removes_client_in_poolUsed:
  "(case run_start stringify0 [Text ''GET'', Text ''k''] 2 (ticks_at 2 0) (fresh_pool 0 1) of
      Inr (c, s1) \<Rightarrow>
        JStr (name c) \<in> poolUsed s1 \<and> pool_names s1 = [name c] \<and>
        JStr (name c) \<in> poolUsed (evict 5000 s1) \<and>
        pool_names (evict 5000 s1) = [] \<and> ended (evict 5000 s1) = [name c]
    | Inl e \<Rightarrow> False) \<and>
   (case onClientError True \<lparr>name = ''7-1-0'', lastUsedTime = 1, queue = 0\<rparr> (JStr ''ECONNRESET'')
           (ticks_at 5) (fresh_pool 2 10) of
      Inr s1 \<Rightarrow>
        (case acquire (Some ''7-1-1'') (ticks_at 6 0) s1 of
           Inr (Some c, s2) \<Rightarrow>
             JStr (name c) \<in> poolUsed s2 \<and> pool_names s2 = [''7-1-1'', ''7-5-0'', ''7-5-1''] \<and>
             pool_names (evict 5000 s2) = [''7-5-0'', ''7-5-1''] \<and> ended (evict 5000 s2) = [name c]
         | _ \<Rightarrow> False)
    | Inl e \<Rightarrow> False)"
  by code_simp

section \<open>Exhaustion\<close>

text \<open>
  C6.  \<open>acquire()\<close> raises \<open>PoolExhausted\<close> exactly when no free candidate exists and the
  pool has reached \<open>maxPool\<close>, and creates a connection when no free candidate exists
  and the pool is below \<open>maxPool\<close>.  The code does neither when the pool is not empty:
  after \<open>subscribe\<close> has made the only connection the designated subscriber,
  \<open>acquire()\<close> returns that connection, with \<open>maxPool = 1\<close> (no error) and with
  \<open>maxPool = 2\<close> (no new connection).
\<close>

theorem acquire_returns_subscriber_instead_of_failing:
  "(case subscribe [''a.*''] 2 (ticks_at 2 0) (fresh_pool 1 1) of
      Inr (r, s1) \<Rightarrow>
        pool_names s1 = [poolUsedPS s1] \<and> length (pool s1) = maxPool s1 \<and>
        (case acquire None (ticks_at 3 0) s1 of
           Inr (Some c, s2) \<Rightarrow> name c = poolUsedPS s1 \<and> pool_names s2 = pool_names s1
         | _ \<Rightarrow> False)
    | Inl e \<Rightarrow> False) \<and>
   (case subscribe [''a.*''] 2 (ticks_at 2 0) (fresh_pool 1 2) of
      Inr (r, s1) \<Rightarrow>
        pool_names s1 = [poolUsedPS s1] \<and> length (pool s1) < maxPool s1 \<and>
        (case acquire None (ticks_at 3 0) s1 of
           Inr (Some c, s2) \<Rightarrow> name c = poolUsedPS s1 \<and> pool_names s2 = pool_names s1
         | _ \<Rightarrow> False)
    | Inl e \<Rightarrow> False)"
  by code_simp

section \<open>Subscriptions\<close>




section \<open>The codec and inbound messages\<close>

text \<open>
  C8.  A binary payload passed to \<open>run\<close> and echoed through a subscribed topic is decoded
  to the same bytes.  The code does not get there.  \<open>run\<close> sends the sentinel followed by
  the codec's text, but the callback \<open>subscribe\<close> installed receives the driver's error
  argument (\<open>null\<close>) as its \<open>message\<close> and the echoed frame as an argument it does not
  take: it throws, and nothing is decoded or emitted.  Handed the frame itself, the
  handler would decode the payload.
\<close>

theorem echoed_payload_is_not_decoded:
  "(case subscribe [''a.*''] 2 (ticks_at 2 0) (fresh_pool 1 2) of
      Inr (r, s1) \<Rightarrow>
        (case run_start stringify0 [Text ''PUBLISH'', Text ''a.b'', Binary [1, 2, 255]] 3
                (ticks_at 3 0) s1 of
           Inr (c, s2) \<Rightarrow>
             last (sent s2) =
               RawCallAsync (name c) [''PUBLISH'', ''a.b'', sentinel # stringify0 [1, 2, 255]] \<and>
             pubsub_callback parse0 c JNull
               (JArray [JStr ''pmessage'', JStr ''a.*'', JStr ''a.b'',
                        JStr (sentinel # stringify0 [1, 2, 255])]) s2 = Inl TypeError \<and>
             emitted (exec stringify0 parse0
                        (PubsubMessage c JNull
                           (JArray [JStr ''pmessage'', JStr ''a.*'', JStr ''a.b'',
                                    JStr (sentinel # stringify0 [1, 2, 255])])) s2) = [] \<and>
             (case onPubsubMessage parse0 c
                     (JArray [JStr ''pmessage'', JStr ''a.*'', JStr ''a.b'',
                              JStr (sentinel # stringify0 [1, 2, 255])]) s2 of
                Inr s3 \<Rightarrow>
                  emitted s3 =
                    [(''message'',
                      [JObject [(''client'', JClient c), (''topic'', JStr ''a.b''),
                                (''data'', JBuf [1, 2, 255])]])]
              | Inl e \<Rightarrow> False)
         | Inl e \<Rightarrow> False)
    | Inl e \<Rightarrow> False)"
  by code_simp

text \<open>
  C9.  Every inbound frame leads to a \<open>message\<close> event with the fields \<open>id\<close>, \<open>topic\<close> and
  \<open>data\<close>.  The code emits no event for a frame the driver delivers: the callback bound
  in \<open>subscribe\<close> takes the driver's error argument for the frame, and reading index 2 of
  \<open>null\<close>, or calling \<open>pop\<close> on an error value, throws.  Handed a frame directly, the
  handler emits an object with the fields \<open>client\<close> (the connection object), \<open>topic\<close> and
  \<open>data\<close>, and none called \<open>id\<close>.
\<close>

theorem delivered_frame_emits_nothing:
  "(case subscribe [''a.*''] 2 (ticks_at 2 0) (fresh_pool 1 2) of
      Inr (r, s1) \<Rightarrow>
        last (sent s1) = RawCall ''7-1-0'' [''PSUBSCRIBE'', ''a.*''] \<and>
        pubsub_callback parse0 \<lparr>name = ''7-1-0'', lastUsedTime = 2, queue = 0\<rparr> JNull
          (JArray [JStr ''pmessage'', JStr ''a.*'', JStr ''a.b'', JStr ''hi'']) s1 = Inl TypeError \<and>
        pubsub_callback parse0 \<lparr>name = ''7-1-0'', lastUsedTime = 2, queue = 0\<rparr>
          (JObject [(''message'', JStr ''ERR unknown command'')]) JUndefined s1 = Inl TypeError \<and>
        emitted (fold (exec stringify0 parse0)
                   [PubsubMessage \<lparr>name = ''7-1-0'', lastUsedTime = 2, queue = 0\<rparr> JNull
                      (JArray [JStr ''psubscribe'', JStr ''a.*'', JNum 1]),
                    PubsubMessage \<lparr>name = ''7-1-0'', lastUsedTime = 2, queue = 0\<rparr> JNull
                      (JArray [JStr ''pmessage'', JStr ''a.*'', JStr ''a.b'', JStr ''hi''])] s1) = [] \<and>
        (case onPubsubMessage parse0 \<lparr>name = ''7-1-0'', lastUsedTime = 2, queue = 0\<rparr>
                (JArray [JStr ''pmessage'', JStr ''a.*'', JStr ''a.b'', JStr ''hi'']) s1 of
           Inr s2 \<Rightarrow>
             (case emitted s2 of
                [(ev, [JObject fs])] \<Rightarrow>
                  ev = ''message'' \<and> map fst fs = [''client'', ''topic'', ''data''] \<and>
                  map_of fs ''id'' = None \<and>
                  map_of fs ''client'' =
                    Some (JClient \<lparr>name = ''7-1-0'', lastUsedTime = 2, queue = 0\<rparr>)
              | _ \<Rightarrow> False)
         | Inl e \<Rightarrow> False)
    | Inl e \<Rightarrow> False)"
  by code_simp

section \<open>The promise of \<open>subscribe\<close>\<close>

text \<open>
  C10 (as the code has it).  In every state the operations lead to from a constructed
  manager in which \<open>acquire()\<close> can succeed (the manager was constructed with
  \<open>minPool \<ge> 1\<close>, or the pool is not empty, or \<open>maxPool\<close> is positive), and for every list of
  topics, \<open>subscribe\<close> returns a promise already resolved to \<open>true\<close>; the command goes out
  with \<open>rawCall\<close> and a callback, and the answer of the backend is no input of
  \<open>subscribe\<close>.  With an empty pool and \<open>maxPool = 0\<close>, \<open>subscribe\<close> throws \<open>PoolExhausted\<close>
  and returns no promise.
\<close>

theorem subscribe_resolves_true:
  assumes "s = fold (exec sf pf) ops (construct minP maxP ttl p tk)"
  shows "(1 \<le> minP \<or> 0 < maxPool s \<or> pool s \<noteq> [] \<longrightarrow>
          (\<exists>s'. subscribe topic now t s = Inr (Resolved (JBool True), s') \<and>
                sent s' = sent s @ [RawCall (poolUsedPS s') (''PSUBSCRIBE'' # topic)])) \<and>
         (pool s = [] \<and> maxPool s = 0 \<longrightarrow> subscribe topic now t s = Inl PoolExhausted)"
proof (intro conjI impI)
  assume a: "1 \<le> minP \<or> 0 < maxPool s \<or> pool s \<noteq> []"
  from reachable_pool_ok [of sf pf ops minP maxP ttl p tk] assms
  have ok: "pool_ok s" and m: "minPool s = minP" by simp_all
  from ok have wf: "pool_wf s" by (simp add: pool_ok_def)
  from a ok m have "pool s \<noteq> [] \<or> 0 < maxPool s" by (auto simp: pool_ok_def)
  from subscribe_succeeds [OF wf this]
  show "\<exists>s'. subscribe topic now t s = Inr (Resolved (JBool True), s') \<and>
             sent s' = sent s @ [RawCall (poolUsedPS s') (''PSUBSCRIBE'' # topic)]" .
next
  assume "pool s = [] \<and> maxPool s = 0"
  then show "subscribe topic now t s = Inl PoolExhausted" by (simp add: subscribe_throws)
qed

theorem subscribe_resolves_true_witness:
  "(1 :: nat) \<le> 1 \<and>
   (\<exists>s'. subscribe [''a.*''] 9 (ticks_at 9 0)
            (fold (exec stringify0 parse0) [Run [Text ''PING''] 2 (ticks_at 2 0) (Rejected JNull), Evict 5000]
               (construct 1 2 1000 7 (ticks_at 1)))
          = Inr (Resolved (JBool True), s') \<and>
        sent s' = sent (fold (exec stringify0 parse0)
                          [Run [Text ''PING''] 2 (ticks_at 2 0) (Rejected JNull), Evict 5000]
                          (construct 1 2 1000 7 (ticks_at 1)))
                  @ [RawCall (poolUsedPS s') [''PSUBSCRIBE'', ''a.*'']]) \<and>
   0 < maxPool (construct 0 1 1000 7 (ticks_at 1)) \<and>
   (\<exists>s'. subscribe [''a.*''] 9 (ticks_at 9 0) (construct 0 1 1000 7 (ticks_at 1))
          = Inr (Resolved (JBool True), s') \<and>
        sent s' = sent (construct 0 1 1000 7 (ticks_at 1))
                  @ [RawCall (poolUsedPS s') [''PSUBSCRIBE'', ''a.*'']]) \<and>
   pool (construct 0 0 1000 7 (ticks_at 1)) = [] \<and>
   maxPool (construct 0 0 1000 7 (ticks_at 1)) = 0 \<and>
   subscribe [''a.*''] 9 (ticks_at 9 0) (construct 0 0 1000 7 (ticks_at 1)) = Inl PoolExhausted"
proof -
  have m1: "0 < maxPool (construct 0 1 1000 7 (ticks_at 1))" by code_simp
  have p0: "pool (construct 0 0 1000 7 (ticks_at 1)) = []" by code_simp
  have m0: "maxPool (construct 0 0 1000 7 (ticks_at 1)) = 0" by code_simp
  show ?thesis
    using m1 p0 m0
      subscribe_resolves_true [of _ stringify0 parse0
        "[Run [Text ''PING''] 2 (ticks_at 2 0) (Rejected JNull), Evict 5000]"
        1 2 1000 7 "ticks_at 1" "[''a.*'']" 9 "ticks_at 9 0", OF refl]
      subscribe_resolves_true [of "construct 0 1 1000 7 (ticks_at 1)" stringify0 parse0 "[]"
        0 1 1000 7 "ticks_at 1" "[''a.*'']" 9 "ticks_at 9 0"]
      subscribe_resolves_true [of "construct 0 0 1000 7 (ticks_at 1)" stringify0 parse0 "[]"
        0 0 1000 7 "ticks_at 1" "[''a.*'']" 9 "ticks_at 9 0"]
    by simp
qed

text \<open>
  C10 as stated fails: a manager constructed with \<open>minPool = maxPool = 0\<close> has no
  connection and may create none, and \<open>subscribe\<close> throws instead of returning a promise.
\<close>

theorem subscribe_throws_on_empty_closed_pool:
  "pool (fresh_pool 0 0) = [] \<and>
   subscribe [''a.*''] 2 (ticks_at 2 0) (fresh_pool 0 0) = Inl PoolExhausted"
  by code_simp

end
